theory Spec2Isabelle
  imports Complex_Main
begin

unbundle bit_operations_syntax

section \<open>Python values used by the sensor code\<close>

text \<open>
  Python integers are unbounded and are modelled by \<open>int\<close>; \<open>&\<close> on them is the
  two's-complement \<open>AND\<close> of HOL. Python floats are modelled by \<open>real\<close>: rounding,
  infinities and NaN are outside this model. An exception is a value: its class and the
  text that \<open>str(e)\<close> gives. Only subclasses of \<open>Exception\<close> are modelled (what
  \<open>except Exception\<close> catches); the \<open>__cause__\<close> set by \<open>raise ... from\<close> is not kept.
\<close>

datatype exn_kind = TypeError | ValueError | RuntimeError | ZeroDivisionError | OtherError

datatype exn = Exn exn_kind string

fun str_exn :: "exn \<Rightarrow> string" where
  "str_exn (Exn k m) = m"

definition digit_char :: "nat \<Rightarrow> char" where
  "digit_char d = ''0123456789'' ! d"

function str_nat :: "nat \<Rightarrow> string" where
  "str_nat n = (if n < 10 then [digit_char n] else str_nat (n div 10) @ [digit_char (n mod 10)])"
  by pat_completeness auto
termination
  by (relation "measure (\<lambda>n. n)") auto

text \<open>\<open>str(i)\<close> of a Python int, as the f-string of \<open>_read_u16\<close> formats the device id.\<close>

definition str_int :: "int \<Rightarrow> string" where
  "str_int i = (if i < 0 then CHR ''-'' # str_nat (nat (- i)) else str_nat (nat i))"

section \<open>Conversion unit and wrench (six\_axis\_force\_sensor.py)\<close>

text \<open>
  \<^verbatim>\<open>def _u16_to_s16(value): value &= 0xFFFF; return value - 0x10000 if value & 0x8000 else value\<close>
\<close>

definition u16_to_s16 :: "int \<Rightarrow> int" where
  "u16_to_s16 v = (let v' = v AND 0xFFFF in if v' AND 0x8000 \<noteq> 0 then v' - 0x10000 else v')"

record wrench =
  fx :: real
  fy :: real
  fz :: real
  tx :: real
  ty :: real
  tz :: real

type_synonym ft6 = "real \<times> real \<times> real \<times> real \<times> real \<times> real"

definition as_tuple :: "wrench \<Rightarrow> ft6" where
  "as_tuple w = (fx w, fy w, fz w, tx w, ty w, tz w)"

definition zero_wrench :: wrench where
  "zero_wrench = \<lparr>fx = 0, fy = 0, fz = 0, tx = 0, ty = 0, tz = 0\<rparr>"

section \<open>The Modbus client, a parameter of the model\<close>

text \<open>
  The pymodbus client is not part of the repository. It is a state \<open>'c\<close> of any type
  with three operations, each returning its outcome and the client's next state. What
  \<open>read_holding_registers\<close> returns is \<open>None\<close>, an object without a \<open>registers\<close>
  attribute, or an object with a list of registers. The five ways \<open>_read_u16\<close> calls it
  are the constructors of \<open>rhr_call\<close>, with the arguments in the order written there.
\<close>

datatype response = NoResponse | NoRegistersAttr | Registers "int list"

datatype rhr_call =
    Positional_unit int int int
  | Positional_slave int int int
  | Keyword_unit int int int
  | Keyword_slave int int int
  | Keyword_device_id int int

record 'c transport =
  client_connect :: "'c \<Rightarrow> (exn + bool) \<times> 'c"
  client_close :: "'c \<Rightarrow> (exn + unit) \<times> 'c"
  client_read_holding_registers :: "'c \<Rightarrow> rhr_call \<Rightarrow> (exn + response) \<times> 'c"

section \<open>SixAxisForceSensor\<close>

record 'c sensor =
  ip :: string
  port :: int
  timeout :: "real option"
  n_per_count :: real
  axis_device_ids :: "int list"
  addresses :: "int list"
  client :: 'c
  bias_vector :: wrench



definition connect :: "'c transport \<Rightarrow> 'c sensor \<Rightarrow> (exn + bool) \<times> 'c sensor" where
  "connect t s = (case client_connect t (client s) of (r, c') \<Rightarrow> (r, s\<lparr>client := c'\<rparr>))"


definition call_variants :: "int \<Rightarrow> int \<Rightarrow> rhr_call list" where
  "call_variants device_id address =
     [Positional_unit address 1 device_id,
      Positional_slave address 1 device_id,
      Keyword_unit address 1 device_id,
      Keyword_slave address 1 device_id,
      Keyword_device_id device_id address]"

text \<open>
  The loop of \<open>_read_u16\<close> over the call variants. A response that is \<open>None\<close>, has no
  \<open>registers\<close> or has an empty list continues with the next variant, and so does a
  TypeError; any other exception leaves the loop and the function. After the last
  variant the RuntimeError is raised.
\<close>

fun try_calls :: "'c transport \<Rightarrow> int \<Rightarrow> rhr_call list \<Rightarrow> 'c \<Rightarrow> (exn + int) \<times> 'c" where
  "try_calls t device_id [] c =
     (Inl (Exn RuntimeError (''read_holding_registers failed for device_id='' @ str_int device_id)), c)"
| "try_calls t device_id (call # calls) c =
     (case client_read_holding_registers t c call of
        (Inr resp, c') \<Rightarrow>
          (case resp of
             Registers (r # rs) \<Rightarrow> (Inr (r AND 0xFFFF), c')
           | _ \<Rightarrow> try_calls t device_id calls c')
      | (Inl (Exn k m), c') \<Rightarrow>
          if k = TypeError then try_calls t device_id calls c' else (Inl (Exn k m), c'))"

definition read_u16 :: "'c transport \<Rightarrow> 'c sensor \<Rightarrow> int \<Rightarrow> int \<Rightarrow> (exn + int) \<times> 'c sensor" where
  "read_u16 t s device_id address =
     (case try_calls t device_id (call_variants device_id address) (client s) of
        (r, c') \<Rightarrow> (r, s\<lparr>client := c'\<rparr>))"

text \<open>The loop of \<open>read_raw_u16\<close> over \<open>zip(axis_device_ids, addresses)\<close>.\<close>

fun read_axes ::
  "'c transport \<Rightarrow> 'c sensor \<Rightarrow> (int \<times> int) list \<Rightarrow> int list \<Rightarrow> (exn + int list) \<times> 'c sensor" where
  "read_axes t s [] vals = (Inr vals, s)"
| "read_axes t s ((device_id, address) # rest) vals =
     (case read_u16 t s device_id address of
        (Inl e, s') \<Rightarrow> (Inl e, s')
      | (Inr v, s') \<Rightarrow> read_axes t s' rest (vals @ [v]))"

definition read_raw_u16 :: "'c transport \<Rightarrow> 'c sensor \<Rightarrow> (exn + int list) \<times> 'c sensor" where
  "read_raw_u16 t s = read_axes t s (zip (axis_device_ids s) (addresses s)) []"

definition read_counts :: "'c transport \<Rightarrow> 'c sensor \<Rightarrow> (exn + int list) \<times> 'c sensor" where
  "read_counts t s =
     (case read_raw_u16 t s of
        (Inl e, s') \<Rightarrow> (Inl e, s')
      | (Inr vs, s') \<Rightarrow> (Inr (map u16_to_s16 vs), s'))"

definition get_wrench :: "'c transport \<Rightarrow> 'c sensor \<Rightarrow> bool \<Rightarrow> (exn + wrench) \<times> 'c sensor" where
  "get_wrench t s unbiased =
     (case read_counts t s of
        (Inl e, s') \<Rightarrow> (Inl e, s')
      | (Inr counts, s') \<Rightarrow>
          (let w = \<lparr>fx = real_of_int (if length counts > 0 then counts ! 0 else 0) * n_per_count s',
                    fy = real_of_int (if length counts > 1 then counts ! 1 else 0) * n_per_count s',
                    fz = real_of_int (if length counts > 2 then counts ! 2 else 0) * n_per_count s',
                    tx = 0, ty = 0, tz = 0\<rparr>
           in if unbiased then (Inr w, s')
              else (Inr \<lparr>fx = fx w - fx (bias_vector s'),
                         fy = fy w - fy (bias_vector s'),
                         fz = fz w - fz (bias_vector s'),
                         tx = tx w - tx (bias_vector s'),
                         ty = ty w - ty (bias_vector s'),
                         tz = tz w - tz (bias_vector s')\<rparr>, s')))"

definition get_force_torque :: "'c transport \<Rightarrow> 'c sensor \<Rightarrow> bool \<Rightarrow> (exn + ft6) \<times> 'c sensor" where
  "get_force_torque t s unbiased =
     (case get_wrench t s unbiased of
        (Inl e, s') \<Rightarrow> (Inl e, s')
      | (Inr w, s') \<Rightarrow> (Inr (as_tuple w), s'))"

text \<open>
  The sampling loop of \<open>bias\<close>, with its three running sums. \<open>time.sleep\<close> changes
  nothing the model sees and is left out.
\<close>

fun bias_loop ::
  "'c transport \<Rightarrow> 'c sensor \<Rightarrow> nat \<Rightarrow> real \<times> real \<times> real
     \<Rightarrow> (exn + real \<times> real \<times> real) \<times> 'c sensor" where
  "bias_loop t s 0 acc = (Inr acc, s)"
| "bias_loop t s (Suc n) (sum_fx, sum_fy, sum_fz) =
     (case get_wrench t s True of
        (Inl e, s') \<Rightarrow> (Inl e, s')
      | (Inr w, s') \<Rightarrow> bias_loop t s' n (sum_fx + fx w, sum_fy + fy w, sum_fz + fz w))"

definition bias :: "'c transport \<Rightarrow> 'c sensor \<Rightarrow> int \<Rightarrow> (exn + wrench) \<times> 'c sensor" where
  "bias t s samples =
     (if samples \<le> 0 then (Inl (Exn ValueError ''samples must be > 0''), s)
      else (case bias_loop t s (nat samples) (0, 0, 0) of
              (Inl e, s') \<Rightarrow> (Inl e, s')
            | (Inr (sum_fx, sum_fy, sum_fz), s') \<Rightarrow>
                (let b = \<lparr>fx = sum_fx / real_of_int samples,
                          fy = sum_fy / real_of_int samples,
                          fz = sum_fz / real_of_int samples,
                          tx = 0, ty = 0, tz = 0\<rparr>
                 in (Inr b, s'\<lparr>bias_vector := b\<rparr>))))"

definition unbias :: "'c sensor \<Rightarrow> 'c sensor" where
  "unbias s = s\<lparr>bias_vector := \<lparr>fx = 0, fy = 0, fz = 0, tx = 0, ty = 0, tz = 0\<rparr>\<rparr>"

section \<open>SensorController (qt\_app.py)\<close>

text \<open>
  The controller holds the sensor, the flag \<open>connected\<close> and \<open>last_error\<close>. A Qt
  signal's \<open>emit\<close> is an output: each operation returns the list of what it emitted.
\<close>

record 'c controller =
  sensor :: "'c sensor"
  connected :: bool
  last_error :: string

datatype emission = Updated ft6 string bool | Bias_updated ft6

definition ensure_connected :: "'c transport \<Rightarrow> 'c controller \<Rightarrow> bool \<times> 'c controller" where
  "ensure_connected t k =
     (if connected k then (True, k)
      else (case connect t (sensor k) of
              (Inr b, s') \<Rightarrow>
                (let k' = k\<lparr>sensor := s', connected := b\<rparr>
                 in if \<not> connected k'
                    then (False, k'\<lparr>last_error := ''connect() returned False''\<rparr>)
                    else (True, k'))
            | (Inl e, s') \<Rightarrow>
                (False, k\<lparr>sensor := s', connected := False, last_error := str_exn e\<rparr>)))"

text \<open>
  The \<open>try\<close> block of \<open>poll\<close>: what it raises, or what it emitted, and the controller
  at that point. \<open>self.last_error or "not connected"\<close> is the second string when the
  first is empty.
\<close>

definition poll_try :: "'c transport \<Rightarrow> 'c controller \<Rightarrow> (exn + emission list) \<times> 'c controller" where
  "poll_try t k =
     (case ensure_connected t k of
        (False, k1) \<Rightarrow>
          (Inl (Exn RuntimeError (if last_error k1 = [] then ''not connected'' else last_error k1)), k1)
      | (True, k1) \<Rightarrow>
          (case get_force_torque t (sensor k1) False of
             (Inl e, s') \<Rightarrow> (Inl e, k1\<lparr>sensor := s'\<rparr>)
           | (Inr ft, s') \<Rightarrow>
               (let k2 = k1\<lparr>sensor := s', last_error := ''Modbus OK''\<rparr>
                in (Inr [Updated ft (last_error k2) True], k2))))"

text \<open>
  \<open>poll\<close>: the \<open>try\<close> block under \<open>except Exception\<close>. The first component is what
  leaves the method: \<open>Inr ()\<close> for a normal return, \<open>Inl e\<close> for an exception.
\<close>

definition poll :: "'c transport \<Rightarrow> 'c controller \<Rightarrow> (exn + unit) \<times> emission list \<times> 'c controller" where
  "poll t k =
     (case poll_try t k of
        (Inr out, k') \<Rightarrow> (Inr (), out, k')
      | (Inl e, k') \<Rightarrow>
          (let k'' = k'\<lparr>connected := False, last_error := str_exn e\<rparr>
           in (Inr (), [Updated (0, 0, 0, 0, 0, 0) (last_error k'') False], k'')))"

section \<open>Notions used to state the properties\<close>

text \<open>
  An outcome of one register call after which \<open>_read_u16\<close> goes on to the next variant.
\<close>

fun tries_next :: "exn + response \<Rightarrow> bool" where
  "tries_next (Inr NoResponse) = True"
| "tries_next (Inr NoRegistersAttr) = True"
| "tries_next (Inr (Registers rs)) = (rs = [])"
| "tries_next (Inl (Exn k m)) = (k = TypeError)"

text \<open>
  The client after the calls of a list were made one after the other and each had such an
  outcome; \<open>None\<close> when one of them had another outcome.
\<close>

fun all_try_next :: "'c transport \<Rightarrow> 'c \<Rightarrow> rhr_call list \<Rightarrow> 'c option" where
  "all_try_next t c [] = Some c"
| "all_try_next t c (call # calls) =
     (case client_read_holding_registers t c call of
        (r, c') \<Rightarrow> if tries_next r then all_try_next t c' calls else None)"

text \<open>
  \<open>n\<close> consecutive unbiased reads: the wrenches read, in order, or the exception of the
  first read that fails.
\<close>

fun unbiased_reads :: "'c transport \<Rightarrow> 'c sensor \<Rightarrow> nat \<Rightarrow> (exn + wrench list) \<times> 'c sensor" where
  "unbiased_reads t s 0 = (Inr [], s)"
| "unbiased_reads t s (Suc n) =
     (case get_wrench t s True of
        (Inl e, s') \<Rightarrow> (Inl e, s')
      | (Inr w, s') \<Rightarrow>
          (case unbiased_reads t s' n of
             (Inl e, s'') \<Rightarrow> (Inl e, s'')
           | (Inr ws, s'') \<Rightarrow> (Inr (w # ws), s'')))"


section \<open>A scripted client, for concrete runs\<close>

text \<open>
  A client whose state is two scripts: the outcomes of its next \<open>connect\<close> calls and
  of its next register reads, whatever the calling convention. Each call takes the head of
  its script; an exhausted script refuses the connection, or answers \<open>None\<close>.
\<close>

type_synonym script = "(exn + bool) list \<times> (exn + response) list"

definition scripted :: "script transport" where
  "scripted =
     \<lparr>client_connect = (\<lambda>(cs, rs). case cs of [] \<Rightarrow> (Inr False, (cs, rs)) | x # cs' \<Rightarrow> (x, (cs', rs))),
      client_close = (\<lambda>c. (Inr (), c)),
      client_read_holding_registers =
        (\<lambda>(cs, rs) call. case rs of [] \<Rightarrow> (Inr NoResponse, (cs, rs)) | x # rs' \<Rightarrow> (x, (cs, rs')))\<rparr>"

text \<open>
  A sensor as \<open>__init__\<close> leaves it, over a scripted client: the axes \<open>ids\<close> all at
  register address 0, the scale factor \<open>npc\<close>, no bias.
\<close>

definition scripted_sensor :: "int list \<Rightarrow> real \<Rightarrow> script \<Rightarrow> script sensor" where
  "scripted_sensor ids npc cl =
     \<lparr>ip = ''10.10.10.2'', port = 502, timeout = None, n_per_count = npc,
      axis_device_ids = ids, addresses = map (\<lambda>_. 0) ids, client = cl,
      bias_vector = zero_wrench\<rparr>"

definition regs :: "int \<Rightarrow> exn + response" where
  "regs v = Inr (Registers [v])"

text \<open>A controller over a one-axis scripted sensor (device 1, scale factor 1).\<close>

definition scripted_controller :: "script \<Rightarrow> bool \<Rightarrow> string \<Rightarrow> script controller" where
  "scripted_controller cl c e = \<lparr>sensor = scripted_sensor [1] 1 cl, connected = c, last_error = e\<rparr>"

section \<open>Raw to signed counts\<close>

lemma and_ffff: "(v::int) AND 0xFFFF = v mod 65536"
proof -
  have "v AND mask 16 = take_bit 16 v" by (simp add: take_bit_eq_mask)
  then show ?thesis by (simp add: take_bit_eq_mod mask_eq_exp_minus_1)
qed

lemma and_8000: "0 \<le> v \<Longrightarrow> v < 65536 \<Longrightarrow> ((v::int) AND 0x8000 \<noteq> 0) = (32768 \<le> v)"
proof -
  assume a: "0 \<le> v" "v < 65536"
  have "(v AND 2 ^ 15 = 0) = (\<not> bit v 15)" by (rule and_exp_eq_0_iff_not_bit)
  moreover have "bit v 15 = odd (v div 2 ^ 15)" by (simp add: bit_iff_odd_drop_bit drop_bit_eq_div)
  moreover have "odd (v div 32768) = (32768 \<le> v)"
  proof (cases "32768 \<le> v")
    case True
    then have "v div 32768 = 1" using a by simp
    then show ?thesis using True by simp
  next
    case False
    then have "v div 32768 = 0" using a by simp
    then show ?thesis using False by simp
  qed
  ultimately show ?thesis by simp
qed

lemma u16_to_s16_range: "0 \<le> v \<Longrightarrow> v \<le> 65535 \<Longrightarrow> u16_to_s16 v = (if v < 32768 then v else v - 65536)"
  using and_8000[of v] by (simp add: u16_to_s16_def and_ffff Let_def)

lemma mod_65536_signed: "-32768 \<le> s \<Longrightarrow> s \<le> 32767 \<Longrightarrow> (s::int) mod 65536 = (if s < 0 then s + 65536 else s)"
proof (cases "s < 0")
  case True
  assume "-32768 \<le> s"
  then have "(s + 65536) mod 65536 = s + 65536" using True by (intro mod_pos_pos_trivial) auto
  moreover have "(s + 65536) mod 65536 = s mod 65536" by (rule mod_add_self2)
  ultimately show ?thesis using True by simp
next
  case False
  assume "s \<le> 32767"
  then have "s mod 65536 = s" using False by (intro mod_pos_pos_trivial) auto
  then show ?thesis using False by simp
qed

lemma u16_to_s16_roundtrip: "-32768 \<le> s \<Longrightarrow> s \<le> 32767 \<Longrightarrow> u16_to_s16 (s AND 0xFFFF) = s"
  using u16_to_s16_range[of "s mod 65536"] by (simp add: and_ffff mod_65536_signed)

lemma outcome_cases:
  "tries_next r \<or> (\<exists>x xs. r = Inr (Registers (x # xs))) \<or> (\<exists>k m. r = Inl (Exn k m) \<and> k \<noteq> TypeError)"
proof (cases r)
  case (Inl e)
  then show ?thesis by (cases e) auto
next
  case (Inr resp)
  show ?thesis
  proof (cases resp)
    case (Registers rs)
    with Inr show ?thesis by (cases rs) auto
  qed (use Inr in auto)
qed

lemma try_calls_next:
  "client_read_holding_registers t c call = (r, c') \<Longrightarrow> tries_next r \<Longrightarrow>
   try_calls t d (call # calls) c = try_calls t d calls c'"
proof (cases r)
  case (Inl e)
  assume "client_read_holding_registers t c call = (r, c')" "tries_next r"
  with Inl show ?thesis by (cases e) simp
next
  case (Inr resp)
  assume a: "client_read_holding_registers t c call = (r, c')" "tries_next r"
  show ?thesis
  proof (cases resp)
    case (Registers rs)
    with a Inr show ?thesis by simp
  qed (use a Inr in simp_all)
qed

lemma try_calls_value:
  "client_read_holding_registers t c call = (Inr (Registers (x # xs)), c') \<Longrightarrow>
   try_calls t d (call # calls) c = (Inr (x AND 0xFFFF), c')"
  by simp

lemma try_calls_raise:
  "client_read_holding_registers t c call = (Inl (Exn k m), c') \<Longrightarrow> k \<noteq> TypeError \<Longrightarrow>
   try_calls t d (call # calls) c = (Inl (Exn k m), c')"
  by simp

lemma try_calls_range:
  "try_calls t d calls c = (Inr v, c') \<Longrightarrow> 0 \<le> v \<and> v \<le> 65535"
proof (induction calls arbitrary: c)
  case Nil
  then show ?case by simp
next
  case (Cons call calls)
  obtain r c1 where rc: "client_read_holding_registers t c call = (r, c1)"
    by (cases "client_read_holding_registers t c call")
  consider (nxt) "tries_next r" | (val) x xs where "r = Inr (Registers (x # xs))"
    | (exc) k m where "r = Inl (Exn k m)" "k \<noteq> TypeError"
    using outcome_cases[of r] by blast
  then show ?case
  proof cases
    case nxt
    with rc Cons.prems have "try_calls t d calls c1 = (Inr v, c')"
      by (simp only: try_calls_next)
    then show ?thesis by (rule Cons.IH)
  next
    case val
    with rc Cons.prems have "v = x AND 0xFFFF" by simp
    then show ?thesis by (simp add: and_ffff)
  next
    case exc
    with rc Cons.prems show ?thesis by simp
  qed
qed



lemma read_u16_range: "read_u16 t s d a = (Inr v, s') \<Longrightarrow> 0 \<le> v \<and> v \<le> 65535"
proof -
  assume a: "read_u16 t s d a = (Inr v, s')"
  obtain r c1 where tc: "try_calls t d (call_variants d a) (client s) = (r, c1)"
    by (cases "try_calls t d (call_variants d a) (client s)")
  with a have "r = Inr v" by (simp add: read_u16_def)
  with tc have "try_calls t d (call_variants d a) (client s) = (Inr v, c1)" by simp
  then show ?thesis by (rule try_calls_range)
qed

lemma read_axes_range:
  "read_axes t s das vals = (Inr vs, s') \<Longrightarrow> \<forall>v \<in> set vals. 0 \<le> v \<and> v \<le> 65535
     \<Longrightarrow> \<forall>v \<in> set vs. 0 \<le> v \<and> v \<le> 65535"
proof (induction das arbitrary: s vals)
  case Nil
  then show ?case by simp
next
  case (Cons da das)
  obtain d a where da: "da = (d, a)" by (cases da)
  obtain r s1 where ru: "read_u16 t s d a = (r, s1)" by (cases "read_u16 t s d a")
  show ?case
  proof (cases r)
    case (Inl e)
    with Cons.prems(1) ru da show ?thesis by simp
  next
    case (Inr v)
    with ru have "read_u16 t s d a = (Inr v, s1)" by simp
    then have rg: "0 \<le> v \<and> v \<le> 65535" by (rule read_u16_range)
    from Cons.prems(1) ru Inr da
    have ra: "read_axes t s1 das (vals @ [v]) = (Inr vs, s')" by simp
    from rg Cons.prems(2) have "\<forall>x \<in> set (vals @ [v]). 0 \<le> x \<and> x \<le> 65535" by simp
    with ra show ?thesis by (rule Cons.IH)
  qed
qed

lemma read_raw_u16_range:
  "read_raw_u16 t s = (Inr vs, s') \<Longrightarrow> \<forall>v \<in> set vs. 0 \<le> v \<and> v \<le> 65535"
proof -
  assume "read_raw_u16 t s = (Inr vs, s')"
  then have "read_axes t s (zip (axis_device_ids s) (addresses s)) [] = (Inr vs, s')"
    by (simp add: read_raw_u16_def)
  moreover have "\<forall>v \<in> set ([]::int list). 0 \<le> v \<and> v \<le> 65535" by simp
  ultimately show ?thesis by (rule read_axes_range)
qed


lemma map_u16_to_s16_range:
  "\<forall>v \<in> set vs. 0 \<le> v \<and> v \<le> 65535 \<Longrightarrow>
   map u16_to_s16 vs = map (\<lambda>v. if v < 32768 then v else v - 65536) vs"
  by (induction vs) (simp_all add: u16_to_s16_range)

lemma read_counts_signed:
  "read_counts t s =
     (case read_raw_u16 t s of
        (Inl e, s') \<Rightarrow> (Inl e, s')
      | (Inr vs, s') \<Rightarrow> (Inr (map (\<lambda>v. if v < 32768 then v else v - 65536) vs), s'))"
proof -
  obtain r s1 where rr: "read_raw_u16 t s = (r, s1)" by (cases "read_raw_u16 t s")
  show ?thesis
  proof (cases r)
    case (Inl e)
    with rr show ?thesis by (simp add: read_counts_def)
  next
    case (Inr vs)
    with rr have "read_raw_u16 t s = (Inr vs, s1)" by simp
    then have "\<forall>v \<in> set vs. 0 \<le> v \<and> v \<le> 65535" by (rule read_raw_u16_range)
    then have "map u16_to_s16 vs = map (\<lambda>v. if v < 32768 then v else v - 65536) vs"
      by (rule map_u16_to_s16_range)
    with rr Inr show ?thesis by (simp add: read_counts_def)
  qed
qed

text \<open>
  Claim C1. For a raw value \<open>v\<close> in [0, 65535], \<open>_u16_to_s16\<close> returns \<open>v\<close> when
  \<open>v < 32768\<close> and \<open>v - 65536\<close> otherwise; a signed \<open>sc\<close> in [-32768, 32767], masked to
  its 16-bit unsigned form as \<open>_read_u16\<close> masks a register, comes back unchanged; and
  \<open>read_counts\<close> applies exactly this transform to every value \<open>read_raw_u16\<close> returned,
  in the same order, and fails as \<open>read_raw_u16\<close> fails.
\<close>

theorem C1_raw_to_signed:
  "(0 \<le> v \<and> v \<le> 65535 \<longrightarrow> u16_to_s16 v = (if v < 32768 then v else v - 65536))
   \<and> (-32768 \<le> sc \<and> sc \<le> 32767 \<longrightarrow> u16_to_s16 (sc AND 0xFFFF) = sc)
   \<and> read_counts t s =
       (case read_raw_u16 t s of
          (Inl e, s') \<Rightarrow> (Inl e, s')
        | (Inr vs, s') \<Rightarrow> (Inr (map (\<lambda>v. if v < 32768 then v else v - 65536) vs), s'))"
  using u16_to_s16_range[of v] u16_to_s16_roundtrip[of sc] read_counts_signed[of t s]
  by (intro conjI impI) simp_all

subsection \<open>Running the scripted client\<close>

lemma scripted_read:
  "client_read_holding_registers scripted (cs, x # rs) call = (x, (cs, rs))"
  "client_read_holding_registers scripted (cs, []) call = (Inr NoResponse, (cs, []))"
  by (simp_all add: scripted_def)

lemma scripted_connect:
  "client_connect scripted (x # cs, rs) = (x, (cs, rs))"
  "client_connect scripted ([], rs) = (Inr False, ([], rs))"
  by (simp_all add: scripted_def)

lemma scripted_read_u16:
  "read_u16 scripted (scripted_sensor ids npc (cs, regs v # rs)) d a
     = (Inr (v AND 0xFFFF), scripted_sensor ids npc (cs, rs))"
  by (simp add: read_u16_def call_variants_def scripted_read regs_def scripted_sensor_def)

lemma scripted_read_raw_3:
  "read_raw_u16 scripted (scripted_sensor [d1, d2, d3] npc (cs, regs a # regs b # regs c # rs))
     = (Inr [a AND 0xFFFF, b AND 0xFFFF, c AND 0xFFFF], scripted_sensor [d1, d2, d3] npc (cs, rs))"
proof -
  have "read_raw_u16 scripted (scripted_sensor [d1, d2, d3] npc (cs, regs a # regs b # regs c # rs))
     = read_axes scripted (scripted_sensor [d1, d2, d3] npc (cs, regs a # regs b # regs c # rs))
         [(d1, 0), (d2, 0), (d3, 0)] []"
    by (simp add: read_raw_u16_def scripted_sensor_def)
  then show ?thesis by (simp add: scripted_read_u16)
qed

text \<open>
  The scenario of the specification: the registers 40000, 10000, 0 give the counts
  -25536, 10000, 0.
\<close>

theorem C1_raw_to_signed_witness:
  "(0::int) \<le> 40000 \<and> (40000::int) \<le> 65535 \<and> u16_to_s16 40000 = -25536
   \<and> (-32768::int) \<le> -25536 \<and> (-25536::int) \<le> 32767 \<and> u16_to_s16 ((-25536) AND 0xFFFF) = -25536
   \<and> read_counts scripted (scripted_sensor [1, 2, 3] 1 ([], [regs 40000, regs 10000, regs 0]))
       = (Inr [-25536, 10000, 0], scripted_sensor [1, 2, 3] 1 ([], []))"
  using C1_raw_to_signed[of 40000 "-25536" scripted
          "scripted_sensor [1, 2, 3] 1 ([], [regs 40000, regs 10000, regs 0])"]
  by (simp add: scripted_read_raw_3 and_ffff)

section \<open>The register reader's calling conventions\<close>

lemma try_calls_skip_prefix:
  "all_try_next t c pre = Some c1 \<Longrightarrow> try_calls t d (pre @ rest) c = try_calls t d rest c1"
proof (induction pre arbitrary: c)
  case Nil
  then show ?case by simp
next
  case (Cons call pre)
  obtain r c0 where rc: "client_read_holding_registers t c call = (r, c0)"
    by (cases "client_read_holding_registers t c call")
  with Cons.prems have nx: "tries_next r" and rest: "all_try_next t c0 pre = Some c1"
    by (simp_all split: if_splits)
  from rc nx have "try_calls t d ((call # pre) @ rest) c = try_calls t d (pre @ rest) c0"
    by (simp only: append_Cons try_calls_next)
  with Cons.IH[OF rest] show ?case by simp
qed

lemma read_u16_first_success:
  assumes "call_variants d a = pre @ call # post"
    and "all_try_next t (client s) pre = Some c1"
    and "client_read_holding_registers t c1 call = (Inr (Registers (x # xs)), c2)"
  shows "read_u16 t s d a = (Inr (x AND 0xFFFF), s\<lparr>client := c2\<rparr>)"
proof -
  have "try_calls t d (pre @ call # post) (client s) = try_calls t d (call # post) c1"
    using assms(2) by (rule try_calls_skip_prefix)
  also have "\<dots> = (Inr (x AND 0xFFFF), c2)" using assms(3) by (rule try_calls_value)
  finally show ?thesis by (simp add: read_u16_def assms(1))
qed

lemma read_u16_exhausted:
  assumes "all_try_next t (client s) (call_variants d a) = Some c5"
  shows "read_u16 t s d a =
    (Inl (Exn RuntimeError (''read_holding_registers failed for device_id='' @ str_int d)),
     s\<lparr>client := c5\<rparr>)"
proof -
  have "try_calls t d (call_variants d a @ []) (client s) = try_calls t d [] c5"
    using assms by (rule try_calls_skip_prefix)
  then show ?thesis by (simp add: read_u16_def)
qed

lemma read_u16_other_exception:
  assumes "call_variants d a = pre @ call # post"
    and "all_try_next t (client s) pre = Some c1"
    and "client_read_holding_registers t c1 call = (Inl (Exn k m), c2)"
    and "k \<noteq> TypeError"
  shows "read_u16 t s d a = (Inl (Exn k m), s\<lparr>client := c2\<rparr>)"
proof -
  have "try_calls t d (pre @ call # post) (client s) = try_calls t d (call # post) c1"
    using assms(2) by (rule try_calls_skip_prefix)
  also have "\<dots> = (Inl (Exn k m), c2)" using assms(3,4) by (rule try_calls_raise)
  finally show ?thesis by (simp add: read_u16_def assms(1))
qed

text \<open>
  Claim C5. \<open>_read_u16\<close> tries five calling conventions in one fixed order. When the
  conventions before some convention each returned no registers or raised a TypeError,
  and that convention returns at least one register, the read returns its first register
  (masked to 16 bits) and the client is as that call left it: no later convention is
  called. When all five returned no registers or raised a TypeError, the read raises one
  RuntimeError whose message ends with the device id.
\<close>

theorem C5_reader_fallback:
  "call_variants d a =
     [Positional_unit a 1 d, Positional_slave a 1 d, Keyword_unit a 1 d, Keyword_slave a 1 d,
      Keyword_device_id d a]
   \<and> (call_variants d a = pre @ call # post
        \<and> all_try_next t (client s) pre = Some c1
        \<and> client_read_holding_registers t c1 call = (Inr (Registers (x # xs)), c2)
      \<longrightarrow> read_u16 t s d a = (Inr (x AND 0xFFFF), s\<lparr>client := c2\<rparr>))
   \<and> (all_try_next t' (client s') (call_variants d a) = Some c5
      \<longrightarrow> read_u16 t' s' d a =
            (Inl (Exn RuntimeError (''read_holding_registers failed for device_id='' @ str_int d)),
             s'\<lparr>client := c5\<rparr>))"
  using read_u16_first_success[of d a pre call post t s c1 x xs c2]
        read_u16_exhausted[of t' s' d a c5]
  by (simp add: call_variants_def)

lemma str_int_7: "str_int 7 = ''7''"
  by (simp add: str_int_def digit_char_def)


text \<open>
  Device 7: the third convention answers 70000 after a TypeError and an empty register
  list; and a client on which all five conventions fail.
\<close>

theorem C5_reader_fallback_witness:
  "call_variants 7 0 = [Positional_unit 0 1 7, Positional_slave 0 1 7] @ Keyword_unit 0 1 7
       # [Keyword_slave 0 1 7, Keyword_device_id 7 0]
   \<and> read_u16 scripted
        (scripted_sensor [7] 1
          ([], [Inl (Exn TypeError ''unexpected keyword''), Inr (Registers []), regs 70000, regs 5]))
        7 0
      = (Inr 4464, scripted_sensor [7] 1 ([], [regs 5]))
   \<and> read_u16 scripted
        (scripted_sensor [7] 1
          ([], [Inl (Exn TypeError ''unexpected keyword''), Inr NoResponse, Inr NoRegistersAttr,
                Inr (Registers []), Inl (Exn TypeError ''missing argument''), regs 5]))
        7 0
      = (Inl (Exn RuntimeError ''read_holding_registers failed for device_id=7''),
         scripted_sensor [7] 1 ([], [regs 5]))"
  using C5_reader_fallback[where d = 7 and a = 0
      and pre = "[Positional_unit 0 1 7, Positional_slave 0 1 7]"
      and call = "Keyword_unit 0 1 7"
      and post = "[Keyword_slave 0 1 7, Keyword_device_id 7 0]"
      and t = scripted
      and s = "scripted_sensor [7] 1
          ([], [Inl (Exn TypeError ''unexpected keyword''), Inr (Registers []), regs 70000, regs 5])"
      and ?c1.0 = "([], [regs 70000, regs 5])" and x = 70000 and xs = "[]"
      and ?c2.0 = "([], [regs 5])"
      and t' = scripted
      and s' = "scripted_sensor [7] 1
          ([], [Inl (Exn TypeError ''unexpected keyword''), Inr NoResponse, Inr NoRegistersAttr,
                Inr (Registers []), Inl (Exn TypeError ''missing argument''), regs 5])"
      and ?c5.0 = "([], [regs 5])"]
  by (simp add: scripted_read scripted_sensor_def regs_def str_int_7 and_ffff)

text \<open>
  Claim C10. When the conventions before some convention each returned no registers or
  raised a TypeError, and that convention raises an exception that is not a TypeError,
  \<open>_read_u16\<close> raises that same exception, not the RuntimeError that names the device,
  and the client is as that call left it: the remaining conventions are not tried.
\<close>

theorem C10_other_exception_propagates:
  "call_variants d a = pre @ call # post
     \<and> all_try_next t (client s) pre = Some c1
     \<and> client_read_holding_registers t c1 call = (Inl (Exn k m), c2)
     \<and> k \<noteq> TypeError
   \<longrightarrow> read_u16 t s d a = (Inl (Exn k m), s\<lparr>client := c2\<rparr>)"
  using read_u16_other_exception[of d a pre call post t s c1 k m c2] by blast

text \<open>
  The second convention raises a transport error after the first raised a TypeError; the
  rest of the script is untouched.
\<close>

theorem C10_other_exception_propagates_witness:
  "call_variants 7 0 = [Positional_unit 0 1 7] @ Positional_slave 0 1 7
       # [Keyword_unit 0 1 7, Keyword_slave 0 1 7, Keyword_device_id 7 0]
   \<and> read_u16 scripted
        (scripted_sensor [7] 1
          ([], [Inl (Exn TypeError ''unexpected keyword''), Inl (Exn OtherError ''connection reset''),
                regs 5]))
        7 0
      = (Inl (Exn OtherError ''connection reset''), scripted_sensor [7] 1 ([], [regs 5]))"
  using C10_other_exception_propagates[where d = 7 and a = 0
      and pre = "[Positional_unit 0 1 7]"
      and call = "Positional_slave 0 1 7"
      and post = "[Keyword_unit 0 1 7, Keyword_slave 0 1 7, Keyword_device_id 7 0]"
      and t = scripted
      and s = "scripted_sensor [7] 1
          ([], [Inl (Exn TypeError ''unexpected keyword''), Inl (Exn OtherError ''connection reset''),
                regs 5])"
      and ?c1.0 = "([], [Inl (Exn OtherError ''connection reset''), regs 5])"
      and k = OtherError and m = "''connection reset''"
      and ?c2.0 = "([], [regs 5])"]
  by (simp add: call_variants_def scripted_read scripted_sensor_def regs_def)

section \<open>Reads change nothing but the client\<close>

lemma self_frame: "\<exists>c. (s::'c sensor) = s\<lparr>client := c\<rparr>"
  by (rule exI[of _ "client s"]) simp

lemma read_u16_frame: "read_u16 t s d a = (r, s') \<Longrightarrow> \<exists>c. s' = s\<lparr>client := c\<rparr>"
proof -
  assume a: "read_u16 t s d a = (r, s')"
  obtain r0 c0 where "try_calls t d (call_variants d a) (client s) = (r0, c0)"
    by (cases "try_calls t d (call_variants d a) (client s)")
  with a have "s' = s\<lparr>client := c0\<rparr>" by (simp add: read_u16_def)
  then show ?thesis ..
qed

lemma read_axes_frame_length:
  "read_axes t s das vals = (r, s') \<Longrightarrow>
   (\<exists>c. s' = s\<lparr>client := c\<rparr>) \<and> (\<forall>vs. r = Inr vs \<longrightarrow> length vs = length vals + length das)"
proof (induction das arbitrary: s vals)
  case Nil
  then have "s' = s" and "r = Inr vals" by simp_all
  then show ?case using self_frame[of s] by simp
next
  case (Cons da das)
  obtain d a where da: "da = (d, a)" by (cases da)
  obtain r1 s1 where ru: "read_u16 t s d a = (r1, s1)" by (cases "read_u16 t s d a")
  then obtain c1 where s1: "s1 = s\<lparr>client := c1\<rparr>" using read_u16_frame by blast
  show ?case
  proof (cases r1)
    case (Inl e)
    with Cons.prems ru da have "s' = s1" and "r = Inl e" by simp_all
    with s1 show ?thesis by auto
  next
    case (Inr v)
    with Cons.prems ru da have "read_axes t s1 das (vals @ [v]) = (r, s')" by simp
    from Cons.IH[OF this] obtain c where "s' = s1\<lparr>client := c\<rparr>"
      and len: "\<forall>vs. r = Inr vs \<longrightarrow> length vs = length (vals @ [v]) + length das" by blast
    with s1 have "s' = s\<lparr>client := c\<rparr>" by simp
    with len show ?thesis by auto
  qed
qed

lemma read_counts_frame_length:
  "read_counts t s = (r, s') \<Longrightarrow>
   (\<exists>c. s' = s\<lparr>client := c\<rparr>)
   \<and> (\<forall>cs. r = Inr cs \<longrightarrow> length cs = length (zip (axis_device_ids s) (addresses s)))"
proof -
  assume a: "read_counts t s = (r, s')"
  obtain r0 s0 where rr: "read_raw_u16 t s = (r0, s0)" by (cases "read_raw_u16 t s")
  then have ra: "read_axes t s (zip (axis_device_ids s) (addresses s)) [] = (r0, s0)"
    by (simp add: read_raw_u16_def)
  note fl = read_axes_frame_length[OF ra]
  show ?thesis
  proof (cases r0)
    case (Inl e)
    with a rr have "s' = s0" "r = Inl e" by (simp_all add: read_counts_def)
    with fl show ?thesis by auto
  next
    case (Inr vs)
    with a rr have "s' = s0" "r = Inr (map u16_to_s16 vs)" by (simp_all add: read_counts_def)
    with fl Inr show ?thesis by auto
  qed
qed

lemma get_wrench_frame: "get_wrench t s u = (r, s') \<Longrightarrow> \<exists>c. s' = s\<lparr>client := c\<rparr>"
proof -
  assume a: "get_wrench t s u = (r, s')"
  obtain r0 s0 where rc: "read_counts t s = (r0, s0)" by (cases "read_counts t s")
  with a have "s' = s0" by (cases r0) (simp_all add: get_wrench_def Let_def split: if_splits)
  with read_counts_frame_length[OF rc] show ?thesis by simp
qed

lemma bias_loop_frame: "bias_loop t s n acc = (r, s') \<Longrightarrow> \<exists>c. s' = s\<lparr>client := c\<rparr>"
proof (induction n arbitrary: s acc)
  case 0
  then have "s' = s" by simp
  then show ?case using self_frame[of s] by simp
next
  case (Suc n)
  obtain ax ay az where acc: "acc = (ax, ay, az)" by (cases acc)
  obtain r1 s1 where gw: "get_wrench t s True = (r1, s1)" by (cases "get_wrench t s True")
  then obtain c1 where s1: "s1 = s\<lparr>client := c1\<rparr>" using get_wrench_frame by blast
  show ?case
  proof (cases r1)
    case (Inl e)
    with Suc.prems gw acc have "s' = s1" by simp
    with s1 show ?thesis by auto
  next
    case (Inr w)
    with Suc.prems gw acc
    have "bias_loop t s1 n (ax + fx w, ay + fy w, az + fz w) = (r, s')" by simp
    from Suc.IH[OF this] obtain c where "s' = s1\<lparr>client := c\<rparr>" ..
    with s1 have "s' = s\<lparr>client := c\<rparr>" by simp
    then show ?thesis ..
  qed
qed

lemma bias_fails_frame:
  "bias t s samples = (Inl e, s') \<Longrightarrow> \<exists>c. s' = s\<lparr>client := c\<rparr>"
proof (cases "samples \<le> 0")
  case True
  assume "bias t s samples = (Inl e, s')"
  with True have "s' = s" by (simp add: bias_def)
  then show ?thesis using self_frame[of s] by simp
next
  case False
  assume a: "bias t s samples = (Inl e, s')"
  obtain r0 s0 where bl: "bias_loop t s (nat samples) (0, 0, 0) = (r0, s0)"
    by (cases "bias_loop t s (nat samples) (0, 0, 0)")
  with a False have "s' = s0"
    by (cases r0) (auto simp: bias_def Let_def split: prod.splits)
  with bias_loop_frame[OF bl] show ?thesis by simp
qed

section \<open>Bias, unbias\<close>

lemma bias_loop_fails_at:
  "unbiased_reads t s k = (Inr ws, sk) \<Longrightarrow> get_wrench t sk True = (Inl e, s') \<Longrightarrow> k < n
   \<Longrightarrow> bias_loop t s n acc = (Inl e, s')"
proof (induction k arbitrary: s n acc ws)
  case 0
  obtain ax ay az where acc: "acc = (ax, ay, az)" by (cases acc)
  from "0.prems"(3) obtain n' where n: "n = Suc n'" by (cases n) auto
  from "0.prems"(1) have "sk = s" by simp
  with "0.prems"(2) acc n show ?case by simp
next
  case (Suc k)
  obtain ax ay az where acc: "acc = (ax, ay, az)" by (cases acc)
  from Suc.prems(3) obtain n' where n: "n = Suc n'" and kn: "k < n'" by (cases n) auto
  obtain r1 s1 where gw: "get_wrench t s True = (r1, s1)" by (cases "get_wrench t s True")
  show ?case
  proof (cases r1)
    case (Inl e1)
    with Suc.prems(1) gw show ?thesis by simp
  next
    case (Inr w)
    obtain r2 s2 where ur: "unbiased_reads t s1 k = (r2, s2)" by (cases "unbiased_reads t s1 k")
    with Suc.prems(1) gw Inr obtain ws' where "unbiased_reads t s1 k = (Inr ws', sk)"
      by (cases r2) auto
    from Suc.IH[OF this Suc.prems(2) kn]
    have "bias_loop t s1 n' (ax + fx w, ay + fy w, az + fz w) = (Inl e, s')" .
    with gw Inr acc n show ?thesis by simp
  qed
qed


lemma get_wrench_zero_bias:
  "bias_vector s = \<lparr>fx = 0, fy = 0, fz = 0, tx = 0, ty = 0, tz = 0\<rparr> \<Longrightarrow>
   get_wrench t s False = get_wrench t s True"
proof -
  assume z: "bias_vector s = \<lparr>fx = 0, fy = 0, fz = 0, tx = 0, ty = 0, tz = 0\<rparr>"
  obtain r0 s0 where rc: "read_counts t s = (r0, s0)" by (cases "read_counts t s")
  from read_counts_frame_length[OF rc] obtain c where "s0 = s\<lparr>client := c\<rparr>" by blast
  with z have z0: "bias_vector s0 = \<lparr>fx = 0, fy = 0, fz = 0, tx = 0, ty = 0, tz = 0\<rparr>" by simp
  show ?thesis
  proof (cases r0)
    case (Inl e)
    with rc show ?thesis by (simp add: get_wrench_def)
  next
    case (Inr cs)
    with rc z0 show ?thesis by (simp add: get_wrench_def Let_def)
  qed
qed

subsection \<open>One-axis reads over the scripted client\<close>

lemma scripted_get_wrench_1:
  "get_wrench scripted
     \<lparr>ip = i, port = p, timeout = tmo, n_per_count = npc, axis_device_ids = [d],
      addresses = [a], client = (cs, regs v # rs), bias_vector = b\<rparr> u
   = (Inr (if u then \<lparr>fx = real_of_int (u16_to_s16 (v AND 0xFFFF)) * npc, fy = 0, fz = 0,
                       tx = 0, ty = 0, tz = 0\<rparr>
           else \<lparr>fx = real_of_int (u16_to_s16 (v AND 0xFFFF)) * npc - fx b, fy = 0 - fy b,
                 fz = 0 - fz b, tx = 0 - tx b, ty = 0 - ty b, tz = 0 - tz b\<rparr>),
      \<lparr>ip = i, port = p, timeout = tmo, n_per_count = npc, axis_device_ids = [d],
       addresses = [a], client = (cs, rs), bias_vector = b\<rparr>)"
  by (simp add: get_wrench_def read_counts_def read_raw_u16_def read_u16_def call_variants_def
        scripted_read regs_def Let_def)

lemma scripted_get_wrench_raises:
  "k \<noteq> TypeError \<Longrightarrow>
   get_wrench scripted
     \<lparr>ip = i, port = p, timeout = tmo, n_per_count = npc, axis_device_ids = [d],
      addresses = [a], client = (cs, Inl (Exn k m) # rs), bias_vector = b\<rparr> u
   = (Inl (Exn k m),
      \<lparr>ip = i, port = p, timeout = tmo, n_per_count = npc, axis_device_ids = [d],
       addresses = [a], client = (cs, rs), bias_vector = b\<rparr>)"
  by (simp add: get_wrench_def read_counts_def read_raw_u16_def read_u16_def call_variants_def
        scripted_read Let_def)

lemma small_counts:
  "u16_to_s16 7 = 7" "u16_to_s16 10 = 10" "u16_to_s16 20 = 20" "u16_to_s16 30 = 30"
  by (simp_all add: u16_to_s16_range)

text \<open>
  Claim C3. Let \<open>samples > 0\<close>. When the first \<open>k < samples\<close> unbiased reads succeed
  and the next one raises \<open>e\<close>, \<open>bias(samples)\<close> raises \<open>e\<close> and the bias vector is what
  it was before the call. More generally, whenever \<open>bias\<close> raises, the bias vector is
  unchanged: no partial average is stored.
\<close>

theorem C3_bias_atomic:
  "(0 < samples \<and> k < nat samples \<and> unbiased_reads t s k = (Inr ws, sk)
      \<and> get_wrench t sk True = (Inl e, s')
    \<longrightarrow> bias t s samples = (Inl e, s') \<and> bias_vector s' = bias_vector s)
   \<and> (bias t2 s2 samples2 = (Inl e2, s2') \<longrightarrow> bias_vector s2' = bias_vector s2)"
proof (intro conjI impI)
  assume a: "0 < samples \<and> k < nat samples \<and> unbiased_reads t s k = (Inr ws, sk)
      \<and> get_wrench t sk True = (Inl e, s')"
  then have "bias_loop t s (nat samples) (0, 0, 0) = (Inl e, s')"
    using bias_loop_fails_at[of t s k ws sk e s' "nat samples" "(0, 0, 0)"] by simp
  with a show b: "bias t s samples = (Inl e, s')" by (simp add: bias_def)
  from bias_fails_frame[OF b] obtain c where "s' = s\<lparr>client := c\<rparr>" ..
  then show "bias_vector s' = bias_vector s" by simp
next
  assume "bias t2 s2 samples2 = (Inl e2, s2')"
  from bias_fails_frame[OF this] obtain c where "s2' = s2\<lparr>client := c\<rparr>" ..
  then show "bias_vector s2' = bias_vector s2" by simp
qed

text \<open>
  A sensor with bias fx = 5 whose second read times out: \<open>bias(3)\<close> raises the timeout
  after two register reads, and the bias is still fx = 5.
\<close>

theorem C3_bias_atomic_witness:
  "unbiased_reads scripted
     ((scripted_sensor [1] 1 ([], [regs 10, Inl (Exn OtherError ''timed out''), regs 30]))
        \<lparr>bias_vector := \<lparr>fx = 5, fy = 0, fz = 0, tx = 0, ty = 0, tz = 0\<rparr>\<rparr>) 1
     = (Inr [\<lparr>fx = 10, fy = 0, fz = 0, tx = 0, ty = 0, tz = 0\<rparr>],
        (scripted_sensor [1] 1 ([], [Inl (Exn OtherError ''timed out''), regs 30]))
          \<lparr>bias_vector := \<lparr>fx = 5, fy = 0, fz = 0, tx = 0, ty = 0, tz = 0\<rparr>\<rparr>)
   \<and> bias scripted
     ((scripted_sensor [1] 1 ([], [regs 10, Inl (Exn OtherError ''timed out''), regs 30]))
        \<lparr>bias_vector := \<lparr>fx = 5, fy = 0, fz = 0, tx = 0, ty = 0, tz = 0\<rparr>\<rparr>) 3
     = (Inl (Exn OtherError ''timed out''),
        (scripted_sensor [1] 1 ([], [regs 30]))
          \<lparr>bias_vector := \<lparr>fx = 5, fy = 0, fz = 0, tx = 0, ty = 0, tz = 0\<rparr>\<rparr>)"
  using C3_bias_atomic[where samples = 3 and k = 1 and t = scripted
      and s = "(scripted_sensor [1] 1 ([], [regs 10, Inl (Exn OtherError ''timed out''), regs 30]))
        \<lparr>bias_vector := \<lparr>fx = 5, fy = 0, fz = 0, tx = 0, ty = 0, tz = 0\<rparr>\<rparr>"
      and ws = "[\<lparr>fx = 10, fy = 0, fz = 0, tx = 0, ty = 0, tz = 0\<rparr>]"
      and sk = "(scripted_sensor [1] 1 ([], [Inl (Exn OtherError ''timed out''), regs 30]))
          \<lparr>bias_vector := \<lparr>fx = 5, fy = 0, fz = 0, tx = 0, ty = 0, tz = 0\<rparr>\<rparr>"
      and e = "Exn OtherError ''timed out''"
      and s' = "(scripted_sensor [1] 1 ([], [regs 30]))
          \<lparr>bias_vector := \<lparr>fx = 5, fy = 0, fz = 0, tx = 0, ty = 0, tz = 0\<rparr>\<rparr>"
      and ?t2.0 = scripted
      and ?s2.0 = "(scripted_sensor [1] 1 ([], [regs 10, Inl (Exn OtherError ''timed out''), regs 30]))
        \<lparr>bias_vector := \<lparr>fx = 5, fy = 0, fz = 0, tx = 0, ty = 0, tz = 0\<rparr>\<rparr>"
      and ?samples2.0 = 3
      and ?e2.0 = "Exn OtherError ''timed out''"
      and ?s2' = "(scripted_sensor [1] 1 ([], [regs 30]))
          \<lparr>bias_vector := \<lparr>fx = 5, fy = 0, fz = 0, tx = 0, ty = 0, tz = 0\<rparr>\<rparr>"]
  by (simp add: scripted_sensor_def scripted_get_wrench_1 scripted_get_wrench_raises small_counts
        bias_def numeral_3_eq_3)



text \<open>
  Claim C7. After \<open>bias(n)\<close>, \<open>n > 0\<close>, whatever its outcome, and then \<open>unbias()\<close>, a
  biased read and an unbiased read from the same sensor state over the same client give
  the same result; \<open>unbias\<close> sets the bias vector to zero and does not touch the client.
\<close>

theorem C7_bias_unbias_idempotent:
  "0 < n \<and> bias t s n = (r, s1)
   \<longrightarrow> get_wrench t (unbias s1) False = get_wrench t (unbias s1) True
       \<and> unbias s1 = s1\<lparr>bias_vector := \<lparr>fx = 0, fy = 0, fz = 0, tx = 0, ty = 0, tz = 0\<rparr>\<rparr>
       \<and> client (unbias s1) = client s1"
proof
  assume "0 < n \<and> bias t s n = (r, s1)"
  have "bias_vector (unbias s1) = \<lparr>fx = 0, fy = 0, fz = 0, tx = 0, ty = 0, tz = 0\<rparr>"
    by (simp add: unbias_def)
  then have "get_wrench t (unbias s1) False = get_wrench t (unbias s1) True"
    by (rule get_wrench_zero_bias)
  then show "get_wrench t (unbias s1) False = get_wrench t (unbias s1) True
       \<and> unbias s1 = s1\<lparr>bias_vector := \<lparr>fx = 0, fy = 0, fz = 0, tx = 0, ty = 0, tz = 0\<rparr>\<rparr>
       \<and> client (unbias s1) = client s1"
    by (simp add: unbias_def)
qed

text \<open>
  After \<open>bias(3)\<close> stored fx = 20 and \<open>unbias()\<close>, the register 7 reads as fx = 7 biased
  and unbiased.
\<close>

theorem C7_bias_unbias_idempotent_witness:
  "bias scripted (scripted_sensor [1] 1 ([], [regs 10, regs 20, regs 30, regs 7])) 3
     = (Inr \<lparr>fx = 20, fy = 0, fz = 0, tx = 0, ty = 0, tz = 0\<rparr>,
        (scripted_sensor [1] 1 ([], [regs 7]))
          \<lparr>bias_vector := \<lparr>fx = 20, fy = 0, fz = 0, tx = 0, ty = 0, tz = 0\<rparr>\<rparr>)
   \<and> get_wrench scripted
        (unbias ((scripted_sensor [1] 1 ([], [regs 7]))
          \<lparr>bias_vector := \<lparr>fx = 20, fy = 0, fz = 0, tx = 0, ty = 0, tz = 0\<rparr>\<rparr>)) False
     = (Inr \<lparr>fx = 7, fy = 0, fz = 0, tx = 0, ty = 0, tz = 0\<rparr>, scripted_sensor [1] 1 ([], []))
   \<and> get_wrench scripted
        (unbias ((scripted_sensor [1] 1 ([], [regs 7]))
          \<lparr>bias_vector := \<lparr>fx = 20, fy = 0, fz = 0, tx = 0, ty = 0, tz = 0\<rparr>\<rparr>)) True
     = (Inr \<lparr>fx = 7, fy = 0, fz = 0, tx = 0, ty = 0, tz = 0\<rparr>, scripted_sensor [1] 1 ([], []))"
  using C7_bias_unbias_idempotent[where n = 3 and t = scripted
      and s = "scripted_sensor [1] 1 ([], [regs 10, regs 20, regs 30, regs 7])"
      and r = "Inr \<lparr>fx = 20, fy = 0, fz = 0, tx = 0, ty = 0, tz = 0\<rparr>"
      and ?s1.0 = "(scripted_sensor [1] 1 ([], [regs 7]))
          \<lparr>bias_vector := \<lparr>fx = 20, fy = 0, fz = 0, tx = 0, ty = 0, tz = 0\<rparr>\<rparr>"]
  by (simp add: scripted_sensor_def scripted_get_wrench_1 small_counts numeral_3_eq_3 bias_def
        Let_def unbias_def zero_wrench_def)

section \<open>The controller: connection state and poll\<close>

lemma ensure_connected_already: "connected k \<Longrightarrow> ensure_connected t k = (True, k)"
  by (simp add: ensure_connected_def)

lemma ensure_connected_success:
  "\<not> connected k \<Longrightarrow> connect t (sensor k) = (Inr True, s') \<Longrightarrow>
   ensure_connected t k = (True, k\<lparr>sensor := s', connected := True\<rparr>)"
  by (simp add: ensure_connected_def Let_def)

lemma ensure_connected_refused:
  "\<not> connected k \<Longrightarrow> connect t (sensor k) = (Inr False, s') \<Longrightarrow>
   ensure_connected t k =
     (False, k\<lparr>sensor := s', connected := False, last_error := ''connect() returned False''\<rparr>)"
  by (simp add: ensure_connected_def Let_def)

lemma ensure_connected_raised:
  "\<not> connected k \<Longrightarrow> connect t (sensor k) = (Inl e, s') \<Longrightarrow>
   ensure_connected t k = (False, k\<lparr>sensor := s', connected := False, last_error := str_exn e\<rparr>)"
  by (simp add: ensure_connected_def)

lemma ensure_connected_True: "ensure_connected t k = (True, k1) \<Longrightarrow> connected k1"
proof (cases "connected k")
  case True
  assume "ensure_connected t k = (True, k1)"
  with True show ?thesis by (simp add: ensure_connected_def)
next
  case False
  assume a: "ensure_connected t k = (True, k1)"
  obtain r s' where c: "connect t (sensor k) = (r, s')" by (cases "connect t (sensor k)")
  show ?thesis
  proof (cases r)
    case (Inl e)
    with a c False show ?thesis by (simp add: ensure_connected_def)
  next
    case (Inr b)
    with a c False show ?thesis by (cases b) (auto simp: ensure_connected_def Let_def)
  qed
qed

lemma poll_not_connected:
  "ensure_connected t k = (False, k1) \<Longrightarrow>
   poll t k =
     (Inr (),
      [Updated (0, 0, 0, 0, 0, 0) (if last_error k1 = [] then ''not connected'' else last_error k1) False],
      k1\<lparr>connected := False,
         last_error := (if last_error k1 = [] then ''not connected'' else last_error k1)\<rparr>)"
  by (simp add: poll_def poll_try_def Let_def)

lemma poll_read_fails:
  "ensure_connected t k = (True, k1) \<Longrightarrow> get_wrench t (sensor k1) False = (Inl e, s') \<Longrightarrow>
   poll t k =
     (Inr (), [Updated (0, 0, 0, 0, 0, 0) (str_exn e) False],
      k1\<lparr>sensor := s', connected := False, last_error := str_exn e\<rparr>)"
  by (simp add: poll_def poll_try_def get_force_torque_def Let_def)

lemma poll_success:
  "ensure_connected t k = (True, k1) \<Longrightarrow> get_wrench t (sensor k1) False = (Inr w, s') \<Longrightarrow>
   poll t k =
     (Inr (), [Updated (as_tuple w) ''Modbus OK'' True],
      k1\<lparr>sensor := s', last_error := ''Modbus OK''\<rparr>)"
  by (simp add: poll_def poll_try_def get_force_torque_def Let_def)

lemma poll_returns: "fst (poll t k) = Inr ()"
proof -
  obtain r k' where pt: "poll_try t k = (r, k')" by (cases "poll_try t k")
  then show ?thesis by (cases r) (simp_all add: poll_def Let_def)
qed

subsection \<open>The controller over the scripted client\<close>

lemma scripted_connect_sensor:
  "connect scripted
     \<lparr>ip = i, port = p, timeout = tmo, n_per_count = npc, axis_device_ids = ids,
      addresses = ads, client = (x # cs, rs), bias_vector = b\<rparr>
   = (x, \<lparr>ip = i, port = p, timeout = tmo, n_per_count = npc, axis_device_ids = ids,
          addresses = ads, client = (cs, rs), bias_vector = b\<rparr>)"
  "connect scripted
     \<lparr>ip = i, port = p, timeout = tmo, n_per_count = npc, axis_device_ids = ids,
      addresses = ads, client = ([], rs), bias_vector = b\<rparr>
   = (Inr False, \<lparr>ip = i, port = p, timeout = tmo, n_per_count = npc, axis_device_ids = ids,
          addresses = ads, client = ([], rs), bias_vector = b\<rparr>)"
  by (simp_all add: connect_def scripted_connect)

lemmas scripted_run =
  scripted_controller_def scripted_sensor_def scripted_connect_sensor scripted_get_wrench_1
  scripted_get_wrench_raises small_counts zero_wrench_def as_tuple_def

text \<open>
  Claim C2. \<open>poll\<close> always returns normally. When ensuring the connection fails, it
  leaves the controller disconnected, with the failure message as \<open>last_error\<close>, and
  emits the zero wrench with that message and \<open>connected = False\<close>. When the connection
  holds and the biased read raises \<open>e\<close>, it does the same with \<open>str(e)\<close>. When the read
  succeeds, it emits the wrench read with the message \<open>Modbus OK\<close> and \<open>connected = True\<close>,
  and the controller stays connected.
\<close>

theorem C2_poll_never_raises:
  "fst (poll t k) = Inr ()
   \<and> (ensure_connected ta ka = (False, k1a) \<longrightarrow>
        poll ta ka =
          (Inr (),
           [Updated (0, 0, 0, 0, 0, 0)
              (if last_error k1a = [] then ''not connected'' else last_error k1a) False],
           k1a\<lparr>connected := False,
               last_error := (if last_error k1a = [] then ''not connected'' else last_error k1a)\<rparr>))
   \<and> (ensure_connected tb kb = (True, k1b) \<and> get_wrench tb (sensor k1b) False = (Inl eb, sb) \<longrightarrow>
        poll tb kb =
          (Inr (), [Updated (0, 0, 0, 0, 0, 0) (str_exn eb) False],
           k1b\<lparr>sensor := sb, connected := False, last_error := str_exn eb\<rparr>))
   \<and> (ensure_connected tc kc = (True, k1c) \<and> get_wrench tc (sensor k1c) False = (Inr wc, sc) \<longrightarrow>
        poll tc kc =
          (Inr (), [Updated (as_tuple wc) ''Modbus OK'' True],
           k1c\<lparr>sensor := sc, last_error := ''Modbus OK''\<rparr>)
        \<and> connected (k1c\<lparr>sensor := sc, last_error := ''Modbus OK''\<rparr>))"
  using poll_returns[of t k] poll_not_connected[of ta ka k1a] poll_read_fails[of tb kb k1b eb sb]
    poll_success[of tc kc k1c wc sc] ensure_connected_True[of tc kc k1c]
  by simp

text \<open>
  Fault collapse: \<open>connect\<close> succeeds once, the first read gives 7, the second read
  times out. The first poll emits the value and is connected; the second emits the zero
  wrench, disconnected, with the timeout text; the third finds the connection refused.
\<close>

theorem C2_poll_never_raises_witness:
  "poll scripted (scripted_controller ([Inr True], [regs 7, Inl (Exn OtherError ''timed out'')]) False [])
     = (Inr (), [Updated (7, 0, 0, 0, 0, 0) ''Modbus OK'' True],
        scripted_controller ([], [Inl (Exn OtherError ''timed out'')]) True ''Modbus OK'')
   \<and> poll scripted (scripted_controller ([], [Inl (Exn OtherError ''timed out'')]) True ''Modbus OK'')
     = (Inr (), [Updated (0, 0, 0, 0, 0, 0) ''timed out'' False],
        scripted_controller ([], []) False ''timed out'')
   \<and> poll scripted (scripted_controller ([], []) False ''timed out'')
     = (Inr (), [Updated (0, 0, 0, 0, 0, 0) ''connect() returned False'' False],
        scripted_controller ([], []) False ''connect() returned False'')"
  using C2_poll_never_raises[where t = scripted
      and k = "scripted_controller ([Inr True], [regs 7, Inl (Exn OtherError ''timed out'')]) False []"
      and ta = scripted
      and ka = "scripted_controller ([], []) False ''timed out''"
      and ?k1a.0 = "scripted_controller ([], []) False ''connect() returned False''"
      and tb = scripted
      and kb = "scripted_controller ([], [Inl (Exn OtherError ''timed out'')]) True ''Modbus OK''"
      and ?k1b.0 = "scripted_controller ([], [Inl (Exn OtherError ''timed out'')]) True ''Modbus OK''"
      and eb = "Exn OtherError ''timed out''"
      and sb = "scripted_sensor [1] 1 ([], [])"
      and tc = scripted
      and kc = "scripted_controller ([Inr True], [regs 7, Inl (Exn OtherError ''timed out'')]) False []"
      and ?k1c.0 = "scripted_controller ([], [regs 7, Inl (Exn OtherError ''timed out'')]) True []"
      and wc = "\<lparr>fx = 7, fy = 0, fz = 0, tx = 0, ty = 0, tz = 0\<rparr>"
      and sc = "scripted_sensor [1] 1 ([], [Inl (Exn OtherError ''timed out'')])"]
  by (simp add: scripted_run ensure_connected_def Let_def)

text \<open>
  Claim C6, as stated, fails where it says that a successful connect clears
  \<open>last_error\<close>. After a poll that timed out, the controller is disconnected with
  \<open>last_error = timed out\<close>; \<open>_ensure_connected\<close> then connects and returns True, and
  \<open>last_error\<close> is still that text.
\<close>

theorem C6_last_error_not_cleared:
  "poll scripted (scripted_controller ([Inr True], [Inl (Exn OtherError ''timed out''), regs 7]) True ''Modbus OK'')
     = (Inr (), [Updated (0, 0, 0, 0, 0, 0) ''timed out'' False],
        scripted_controller ([Inr True], [regs 7]) False ''timed out'')
   \<and> ensure_connected scripted (scripted_controller ([Inr True], [regs 7]) False ''timed out'')
     = (True, scripted_controller ([], [regs 7]) True ''timed out'')
   \<and> last_error (snd (ensure_connected scripted
          (scripted_controller ([Inr True], [regs 7]) False ''timed out''))) \<noteq> []"
  by (simp add: scripted_run ensure_connected_def Let_def poll_def poll_try_def get_force_torque_def)

text \<open>
  Claim C6, amended. \<open>_ensure_connected\<close> returns True and changes nothing when the
  controller is connected. When it is not, it calls \<open>connect\<close>: on a true return the
  controller becomes connected and \<open>last_error\<close> stays as it was; on a false return it
  stays disconnected with \<open>last_error = connect() returned False\<close>; on an exception
  \<open>e\<close> it stays disconnected with \<open>last_error = str(e)\<close>; both failures return False.
\<close>

theorem C6_ensure_connected:
  "(connected k \<longrightarrow> ensure_connected t k = (True, k))
   \<and> (\<not> connected ka \<and> connect ta (sensor ka) = (Inr True, sa) \<longrightarrow>
        ensure_connected ta ka = (True, ka\<lparr>sensor := sa, connected := True\<rparr>)
        \<and> last_error (snd (ensure_connected ta ka)) = last_error ka)
   \<and> (\<not> connected kb \<and> connect tb (sensor kb) = (Inr False, sb) \<longrightarrow>
        ensure_connected tb kb =
          (False, kb\<lparr>sensor := sb, connected := False, last_error := ''connect() returned False''\<rparr>))
   \<and> (\<not> connected kc \<and> connect tc (sensor kc) = (Inl e, sc) \<longrightarrow>
        ensure_connected tc kc =
          (False, kc\<lparr>sensor := sc, connected := False, last_error := str_exn e\<rparr>))"
  using ensure_connected_already[of k t] ensure_connected_success[of ka ta sa]
    ensure_connected_refused[of kb tb sb] ensure_connected_raised[of kc tc e sc]
  by simp

text \<open>The four cases, on scripted clients.\<close>

theorem C6_ensure_connected_witness:
  "ensure_connected scripted (scripted_controller ([], []) True ''Modbus OK'')
     = (True, scripted_controller ([], []) True ''Modbus OK'')
   \<and> ensure_connected scripted (scripted_controller ([Inr True], [regs 7]) False ''timed out'')
     = (True, scripted_controller ([], [regs 7]) True ''timed out'')
   \<and> ensure_connected scripted (scripted_controller ([Inr False], []) False [])
     = (False, scripted_controller ([], []) False ''connect() returned False'')
   \<and> ensure_connected scripted (scripted_controller ([Inl (Exn OtherError ''refused'')], []) False [])
     = (False, scripted_controller ([], []) False ''refused'')"
  using C6_ensure_connected[where t = scripted
      and k = "scripted_controller ([], []) True ''Modbus OK''"
      and ta = scripted
      and ka = "scripted_controller ([Inr True], [regs 7]) False ''timed out''"
      and sa = "scripted_sensor [1] 1 ([], [regs 7])"
      and tb = scripted
      and kb = "scripted_controller ([Inr False], []) False []"
      and sb = "scripted_sensor [1] 1 ([], [])"
      and tc = scripted
      and kc = "scripted_controller ([Inl (Exn OtherError ''refused'')], []) False []"
      and e = "Exn OtherError ''refused''"
      and sc = "scripted_sensor [1] 1 ([], [])"]
  by (simp add: scripted_run)

section \<open>Invariants of a sensor's lifetime\<close>









subsection \<open>Reachable scripted sensors\<close>










end
